theory Spec2Isabelle
  imports Complex_Main
begin

section \<open>Data model of the ledger and lifecycle engine (server.js, db schema)\<close>

text \<open>
  The tables of the SQLite schema are lists of records, in row order. Monetary columns
  are SQLite REAL and JavaScript numbers in the handlers; they are modelled as exact
  rationals, so every sum below is the exact sum of the stored amounts. The date columns
  of \<open>investments\<close> and \<open>transactions\<close> (start_date, maturity_date, created_at, date) are
  written by the handlers and never read by them; they are left out. The \<open>type\<close> column of
  \<open>transactions\<close> and the \<open>status\<close> columns hold string tags; each tag the handlers write or
  compare against is a constructor.
\<close>

datatype txn_type = Deposit | Withdrawal | Accrual | Bonus | Investment

datatype inv_status =
  Active | Pending | Terminated | DepositCompleted | Denied | Matured | Withdrawn

datatype req_status = ReqPending | ReqPaid | ReqDenied

record transaction =
  t_user_id :: nat
  t_type :: txn_type
  t_amount :: rat
  t_investment_id :: "nat option"

record investment =
  i_id :: nat
  i_user_id :: nat
  i_package_id :: nat
  i_deposit_amount :: rat
  i_total_accruals :: rat
  i_status :: inv_status
  i_wallet :: "string option"
  i_transaction_txt :: "string option"

record package =
  p_id :: nat
  p_amount :: int
  p_daily_rate :: rat
  p_level :: string

record user =
  u_id :: nat
  u_phone :: "string option"
  u_level :: "string option"
  u_withdrawal_password :: "string option"
  u_withdrawal_wallet :: "string option"
  u_withdrawal_phone :: "string option"
  u_last_withdrawal_date :: "string option"

record withdrawal_request =
  w_id :: nat
  w_user_id :: nat
  w_investment_id :: "nat option"
  w_amount :: rat
  w_gross_amount :: rat
  w_charge :: rat
  w_net_amount :: rat
  w_wallet :: string
  w_phone :: string
  w_status :: req_status
  w_processed_by :: "nat option"
  w_admin_notes :: "string option"

text \<open>
  The database. \<open>next_investment_id\<close> and \<open>next_request_id\<close> are the AUTOINCREMENT
  counters of the two tables whose \<open>lastID\<close> the handlers use.
\<close>

record db =
  users :: "user list"
  packages :: "package list"
  investments :: "investment list"
  transactions :: "transaction list"
  withdrawal_requests :: "withdrawal_request list"
  next_investment_id :: nat
  next_request_id :: nat

section \<open>Balance projection\<close>

text \<open>\<open>SELECT type, amount, investment_id FROM transactions WHERE user_id = ?\<close>\<close>

definition userTransactions :: "db \<Rightarrow> nat \<Rightarrow> transaction list" where
  "userTransactions d userId = filter (\<lambda>t. t_user_id t = userId) (transactions d)"

text \<open>
  The fold of the invest-from-balance handler (server.js 688-706): four
  \<open>filter(...).reduce((sum, t) => sum + ..., 0)\<close> passes and their combination.
\<close>

definition invest_availableBalance :: "transaction list \<Rightarrow> rat" where
  "invest_availableBalance ts =
     (let totalDeposits =
            foldl (\<lambda>sum t. sum + t_amount t) 0
              (filter (\<lambda>t. t_type t = Deposit \<and> t_amount t > 0) ts);
          totalWithdrawn =
            foldl (\<lambda>sum t. sum + t_amount t) 0
              (filter (\<lambda>t. t_type t = Withdrawal) ts);
          allAccrualsAndBonuses =
            foldl (\<lambda>sum t. sum + t_amount t) 0
              (filter (\<lambda>t. t_type t = Accrual \<or> t_type t = Bonus) ts);
          investmentsFromBalance =
            foldl (\<lambda>sum t. sum + \<bar>t_amount t\<bar>) 0
              (filter (\<lambda>t. t_type t = Investment) ts)
      in totalDeposits + allAccrualsAndBonuses - totalWithdrawn - investmentsFromBalance)"

text \<open>The fold of the withdraw handler (server.js 1618-1636), written out again there.\<close>

definition withdraw_availableBalance :: "transaction list \<Rightarrow> rat" where
  "withdraw_availableBalance ts =
     (let totalDeposits =
            foldl (\<lambda>sum t. sum + t_amount t) 0
              (filter (\<lambda>t. t_type t = Deposit \<and> t_amount t > 0) ts);
          totalWithdrawn =
            foldl (\<lambda>sum t. sum + t_amount t) 0
              (filter (\<lambda>t. t_type t = Withdrawal) ts);
          allAccrualsAndBonuses =
            foldl (\<lambda>sum t. sum + t_amount t) 0
              (filter (\<lambda>t. t_type t = Accrual \<or> t_type t = Bonus) ts);
          investmentsFromBalance =
            foldl (\<lambda>sum t. sum + \<bar>t_amount t\<bar>) 0
              (filter (\<lambda>t. t_type t = Investment) ts)
      in totalDeposits + allAccrualsAndBonuses - totalWithdrawn - investmentsFromBalance)"

text \<open>
  The closed form of the specification, section 3, in its own words:
  sum(deposit) + sum(accrual) + sum(bonus) - sum(withdrawal) - sum(|investment debit|).
\<close>

definition sumOfKind :: "txn_type \<Rightarrow> transaction list \<Rightarrow> rat" where
  "sumOfKind k ts = sum_list (map t_amount (filter (\<lambda>t. t_type t = k) ts))"


text \<open>The same closed form with the deposit guard of the code: only positive deposits.\<close>

definition positiveDeposits :: "transaction list \<Rightarrow> rat" where
  "positiveDeposits ts =
     sum_list (map t_amount (filter (\<lambda>t. t_type t = Deposit \<and> t_amount t > 0) ts))"

definition guarded_projectBalance :: "transaction list \<Rightarrow> rat" where
  "guarded_projectBalance ts =
     positiveDeposits ts + sumOfKind Accrual ts + sumOfKind Bonus ts
       - sumOfKind Withdrawal ts
       - sum_list (map (\<lambda>t. \<bar>t_amount t\<bar>) (filter (\<lambda>t. t_type t = Investment) ts))"

section \<open>Storage helpers\<close>





text \<open>\<open>SELECT * FROM packages WHERE id = ?\<close> (id is the primary key).\<close>

definition findPackage :: "db \<Rightarrow> nat \<Rightarrow> package option" where
  "findPackage d packageId = List.find (\<lambda>p. p_id p = packageId) (packages d)"

text \<open>\<open>SELECT ... FROM users WHERE id = ?\<close>\<close>

definition getUserById :: "db \<Rightarrow> nat \<Rightarrow> user option" where
  "getUserById d userId = List.find (\<lambda>u. u_id u = userId) (users d)"

text \<open>\<open>INSERT INTO transactions (user_id, type, amount, investment_id) VALUES (?, ?, ?, ?)\<close>\<close>

definition insertTransaction :: "db \<Rightarrow> transaction \<Rightarrow> db" where
  "insertTransaction d t = d\<lparr>transactions := transactions d @ [t]\<rparr>"

text \<open>
  \<open>INSERT INTO investments (...)\<close>: the row gets the next AUTOINCREMENT id, which is the
  \<open>lastID\<close> the caller reads; \<open>total_accruals\<close> takes its default 0.
\<close>

definition insertInvestment ::
  "db \<Rightarrow> nat \<Rightarrow> nat \<Rightarrow> rat \<Rightarrow> inv_status \<Rightarrow> string option \<Rightarrow> string option \<Rightarrow> nat \<times> db" where
  "insertInvestment d userId packageId amount status wallet transactionTxt =
     (let lastID = next_investment_id d;
          row = \<lparr>i_id = lastID, i_user_id = userId, i_package_id = packageId,
                 i_deposit_amount = amount, i_total_accruals = 0, i_status = status,
                 i_wallet = wallet, i_transaction_txt = transactionTxt\<rparr>
      in (lastID, d\<lparr>investments := investments d @ [row],
                      next_investment_id := Suc lastID\<rparr>))"

text \<open>\<open>UPDATE investments SET status = ? WHERE id = ?\<close>\<close>

definition setInvestmentStatus :: "db \<Rightarrow> nat \<Rightarrow> inv_status \<Rightarrow> db" where
  "setInvestmentStatus d investmentId status =
     d\<lparr>investments :=
         map (\<lambda>i. if i_id i = investmentId then i\<lparr>i_status := status\<rparr> else i) (investments d)\<rparr>"

text \<open>\<open>UPDATE investments SET total_accruals = total_accruals + ? WHERE id = ?\<close>\<close>

definition addAccruals :: "db \<Rightarrow> nat \<Rightarrow> rat \<Rightarrow> db" where
  "addAccruals d investmentId x =
     d\<lparr>investments :=
         map (\<lambda>i. if i_id i = investmentId
                  then i\<lparr>i_total_accruals := i_total_accruals i + x\<rparr> else i) (investments d)\<rparr>"

text \<open>\<open>UPDATE users SET level = ? WHERE id = ?\<close>\<close>

definition setUserLevel :: "db \<Rightarrow> nat \<Rightarrow> string \<Rightarrow> db" where
  "setUserLevel d userId level =
     d\<lparr>users := map (\<lambda>u. if u_id u = userId then u\<lparr>u_level := Some level\<rparr> else u) (users d)\<rparr>"

text \<open>\<open>UPDATE users SET last_withdrawal_date = date("now") WHERE id = ?\<close>\<close>

definition setLastWithdrawalDate :: "db \<Rightarrow> nat \<Rightarrow> string \<Rightarrow> db" where
  "setLastWithdrawalDate d userId today =
     d\<lparr>users :=
         map (\<lambda>u. if u_id u = userId then u\<lparr>u_last_withdrawal_date := Some today\<rparr> else u)
           (users d)\<rparr>"

section \<open>Handlers\<close>

text \<open>
  Every handler returns its HTTP outcome (an error, or the body of the success response)
  together with the database it leaves behind. The token's \<open>userId\<close> is an argument.
\<close>

datatype error =
    InvalidInput
  | PaymentVerificationFailed
  | PackageNotFound
  | AmountMismatch
  | SameLevel
  | InsufficientBalance
  | UserNotFound
  | WithdrawalPasswordNotSet
  | InvalidWithdrawalPassword
  | WalletNotSet
  | AlreadyWithdrawnToday
  | BelowMinimum
  | InvestmentNotFound
  | InvestmentAlreadyWithdrawn
  | ExceedsAvailable
  | PhoneRequired
  | DepositNotFound
  | DepositAlreadyProcessed inv_status
  | RequestNotFound
  | RequestAlreadyProcessed req_status
  | ServerError

datatype action = Approve | Deny

subsection \<open>POST /api/invest: payment-backed investment (server.js 547-624)\<close>

text \<open>
  \<open>verifyPayment\<close> is the payment processor's answer for a reference. The handler reads the
  user only after both inserts (for the confirmation mail); a missing user makes it throw
  there, which the \<open>catch\<close> turns into a 500 with the rows already written.
\<close>

definition invest ::
  "(string \<Rightarrow> bool) \<Rightarrow> db \<Rightarrow> nat \<Rightarrow> nat \<Rightarrow> rat \<Rightarrow> string \<Rightarrow> (error + nat) \<times> db" where
  "invest verifyPayment d userId packageId amount paymentReference =
     (if amount < 1 \<or> paymentReference = [] then (Inl InvalidInput, d)
      else
        let isMockPayment = (take 5 paymentReference = ''MOCK_'') in
        if \<not> isMockPayment \<and> \<not> verifyPayment paymentReference
        then (Inl PaymentVerificationFailed, d)
        else
          case findPackage d packageId of
            None \<Rightarrow> (Inl PackageNotFound, d)
          | Some packageData \<Rightarrow>
              if \<bar>amount - of_int (p_amount packageData)\<bar> > 1 / 100
              then (Inl AmountMismatch, d)
              else
                let wallet = (if isMockPayment then Some ''mock'' else None);
                    transactionTxt = (if isMockPayment then Some paymentReference else None);
                    (lastID, d1) =
                      insertInvestment d userId packageId amount Active wallet transactionTxt;
                    d2 = insertTransaction d1
                           \<lparr>t_user_id = userId, t_type = Deposit, t_amount = amount,
                            t_investment_id = Some lastID\<rparr>
                in case getUserById d2 userId of
                     None \<Rightarrow> (Inl ServerError, d2)
                   | Some user \<Rightarrow> (Inr lastID, d2))"

subsection \<open>POST /api/invest-from-balance: open or switch a level (server.js 627-795)\<close>

text \<open>
  \<open>SELECT i.id, i.package_id, p.level, i.deposit_amount FROM investments i JOIN packages p
  ON i.package_id = p.id WHERE i.user_id = ? AND i.status = 'active'\<close>, read with
  \<open>dbGet\<close>: the first row of the join.
\<close>

definition joinPackage :: "db \<Rightarrow> investment \<Rightarrow> (investment \<times> package) option" where
  "joinPackage d i = map_option (Pair i) (findPackage d (i_package_id i))"

definition existingActiveInvestment :: "db \<Rightarrow> nat \<Rightarrow> (investment \<times> package) option" where
  "existingActiveInvestment d userId =
     (case List.map_filter (joinPackage d)
             (filter (\<lambda>i. i_user_id i = userId \<and> i_status i = Active) (investments d)) of
        [] \<Rightarrow> None
      | row # _ \<Rightarrow> Some row)"

text \<open>
  What the handler has read when its checks are through: the package, the active slot it
  found (id and level) and the balance it computed.
\<close>

record invest_plan =
  pl_userId :: nat
  pl_packageId :: nat
  pl_amount :: rat
  pl_level :: string
  pl_existing :: "(nat \<times> string) option"
  pl_availableBalance :: rat

record invest_response =
  r_investmentId :: nat
  r_level :: string
  r_previousLevel :: "string option"
  r_amount :: rat
  r_newBalance :: rat

text \<open>The reads and checks, up to the balance check (server.js 632-716).\<close>

definition investFromBalance_reads :: "db \<Rightarrow> nat \<Rightarrow> nat \<Rightarrow> rat \<Rightarrow> error + invest_plan" where
  "investFromBalance_reads d userId packageId amount =
     (if amount < 1 then Inl InvalidInput
      else
        case findPackage d packageId of
          None \<Rightarrow> Inl PackageNotFound
        | Some packageData \<Rightarrow>
            if \<bar>amount - of_int (p_amount packageData)\<bar> > 1 / 100 then Inl AmountMismatch
            else
              case getUserById d userId of
                None \<Rightarrow> Inl ServerError
              | Some userData \<Rightarrow>
                  let existing = existingActiveInvestment d userId in
                  if (case existing of
                        None \<Rightarrow> False
                      | Some (i, p) \<Rightarrow> p_level p = p_level packageData)
                  then Inl SameLevel
                  else
                    let availableBalance =
                          invest_availableBalance (userTransactions d userId) in
                    if availableBalance < amount then Inl InsufficientBalance
                    else Inr \<lparr>pl_userId = userId, pl_packageId = packageId,
                              pl_amount = amount, pl_level = p_level packageData,
                              pl_existing = map_option (\<lambda>(i, p). (i_id i, p_level p)) existing,
                              pl_availableBalance = availableBalance\<rparr>)"

text \<open>
  The writes, one statement after the other (server.js 718-755): terminate the slot that
  was read, insert the new active slot, insert the negative investment entry, set the
  user's level.
\<close>

definition investFromBalance_writes :: "db \<Rightarrow> invest_plan \<Rightarrow> invest_response \<times> db" where
  "investFromBalance_writes d pl =
     (let d1 = (case pl_existing pl of
                  None \<Rightarrow> d
                | Some (existingId, previousLevel) \<Rightarrow> setInvestmentStatus d existingId Terminated);
          (lastID, d2) =
            insertInvestment d1 (pl_userId pl) (pl_packageId pl) (pl_amount pl) Active
              (Some ''balance'') (Some ''BALANCE_INVESTMENT'');
          d3 = insertTransaction d2
                 \<lparr>t_user_id = pl_userId pl, t_type = Investment, t_amount = - pl_amount pl,
                  t_investment_id = Some lastID\<rparr>;
          d4 = setUserLevel d3 (pl_userId pl) (pl_level pl)
      in (\<lparr>r_investmentId = lastID, r_level = pl_level pl,
            r_previousLevel = map_option snd (pl_existing pl),
            r_amount = pl_amount pl,
            r_newBalance = pl_availableBalance pl - pl_amount pl\<rparr>, d4))"

definition investFromBalance ::
  "db \<Rightarrow> nat \<Rightarrow> nat \<Rightarrow> rat \<Rightarrow> (error + invest_response) \<times> db" where
  "investFromBalance d userId packageId amount =
     (case investFromBalance_reads d userId packageId amount of
        Inl e \<Rightarrow> (Inl e, d)
      | Inr pl \<Rightarrow> (case investFromBalance_writes d pl of (resp, d') \<Rightarrow> (Inr resp, d')))"

subsection \<open>POST /api/withdraw: request a withdrawal (server.js 1519-1742)\<close>


subsection \<open>PUT /api/admin/deposits/:id: decide a pending deposit (server.js 1872-1940)\<close>

text \<open>
  \<open>SELECT i.*, ... FROM investments i JOIN users u ON i.user_id = u.id WHERE i.id = ?\<close>
\<close>

definition findDeposit :: "db \<Rightarrow> nat \<Rightarrow> investment option" where
  "findDeposit d depositId =
     List.find (\<lambda>i. i_id i = depositId \<and> getUserById d (i_user_id i) \<noteq> None) (investments d)"

text \<open>
  \<open>const newStatus = action === 'approve' ? 'deposit_completed' : 'denied'\<close>
  (server.js 1930): the status a decision leaves on the deposit.
\<close>

definition decidedStatus :: "action \<Rightarrow> inv_status" where
  "decidedStatus act = (if act = Approve then DepositCompleted else Denied)"

definition processDeposit :: "db \<Rightarrow> nat \<Rightarrow> action \<Rightarrow> (error + inv_status) \<times> db" where
  "processDeposit d depositId act =
     (case findDeposit d depositId of
        None \<Rightarrow> (Inl DepositNotFound, d)
      | Some deposit \<Rightarrow>
          if i_status deposit \<noteq> Pending
          then (Inl (DepositAlreadyProcessed (i_status deposit)), d)
          else if act = Approve then
            let d1 = insertTransaction d
                       \<lparr>t_user_id = i_user_id deposit, t_type = Deposit,
                        t_amount = i_deposit_amount deposit,
                        t_investment_id = Some depositId\<rparr>;
                d2 = setInvestmentStatus d1 depositId DepositCompleted
            in (Inr DepositCompleted, d2)
          else (Inr Denied, setInvestmentStatus d depositId Denied))"

subsection \<open>PUT /api/admin/withdrawal-requests/:id: decide a request (server.js 1966-2051)\<close>


text \<open>
  \<open>UPDATE withdrawal_requests SET status = ?, processed_at = ?, processed_by = ?,
  admin_notes = ? WHERE id = ?\<close>
\<close>

definition updateRequest :: "db \<Rightarrow> nat \<Rightarrow> req_status \<Rightarrow> nat \<Rightarrow> string option \<Rightarrow> db" where
  "updateRequest d requestId newStatus adminId notes =
     d\<lparr>withdrawal_requests :=
         map (\<lambda>r. if w_id r = requestId
                  then r\<lparr>w_status := newStatus, w_processed_by := Some adminId,
                         w_admin_notes := notes\<rparr>
                  else r)
           (withdrawal_requests d)\<rparr>"


subsection \<open>The daily accrual job (server.js 2749-2784)\<close>

text \<open>
  \<open>SELECT i.*, p.daily_rate FROM investments i JOIN packages p ON i.package_id = p.id
  WHERE i.status = 'active'\<close>: the rows the job reads before its loop.
\<close>

definition activeInvestments :: "db \<Rightarrow> (investment \<times> package) list" where
  "activeInvestments d =
     List.map_filter (joinPackage d) (filter (\<lambda>i. i_status i = Active) (investments d))"

definition dailyAccrual :: "investment \<times> package \<Rightarrow> rat" where
  "dailyAccrual row = i_deposit_amount (fst row) * p_daily_rate (snd row)"

definition accrualEntry :: "investment \<times> package \<Rightarrow> transaction" where
  "accrualEntry row =
     \<lparr>t_user_id = i_user_id (fst row), t_type = Accrual, t_amount = dailyAccrual row,
      t_investment_id = Some (i_id (fst row))\<rparr>"

text \<open>The loop body: update the slot's total, then insert the accrual entry.\<close>

fun accrualLoop :: "(investment \<times> package) list \<Rightarrow> db \<Rightarrow> db" where
  "accrualLoop [] d = d"
| "accrualLoop (row # rows) d =
     accrualLoop rows
       (insertTransaction (addAccruals d (i_id (fst row)) (dailyAccrual row)) (accrualEntry row))"

text \<open>The job returns the number of rows it processed (the count it logs).\<close>

definition runDailyAccrual :: "db \<Rightarrow> nat \<times> db" where
  "runDailyAccrual d =
     (let rows = activeInvestments d in (length rows, accrualLoop rows d))"


section \<open>The rounding the specification names\<close>


section \<open>Notions used to state what the accrual job does\<close>

text \<open>
  One run's credit to a slot: an active slot whose tier is in the catalogue gains
  principal * dailyRate on its accumulated accruals; every other slot is left alone.
\<close>

definition creditSlot :: "db \<Rightarrow> investment \<Rightarrow> investment" where
  "creditSlot d i =
     (if i_status i = Active
      then (case findPackage d (i_package_id i) of
              None \<Rightarrow> i
            | Some p \<Rightarrow>
                i\<lparr>i_total_accruals := i_total_accruals i + i_deposit_amount i * p_daily_rate p\<rparr>)
      else i)"

text \<open>
  The credit a list of job rows gives a slot (the sum over the rows with the slot's id),
  and the rows the join yields for a list of slots.
\<close>

definition creditedBy :: "(investment \<times> package) list \<Rightarrow> investment \<Rightarrow> investment" where
  "creditedBy rows j =
     j\<lparr>i_total_accruals :=
         i_total_accruals j
           + sum_list (map dailyAccrual (filter (\<lambda>r. i_id (fst r) = i_id j) rows))\<rparr>"

definition rowsOf :: "db \<Rightarrow> investment list \<Rightarrow> (investment \<times> package) list" where
  "rowsOf d xs = List.map_filter (joinPackage d) (filter (\<lambda>i. i_status i = Active) xs)"

section \<open>Notions used to state the slot invariants\<close>

text \<open>The number of slots of an account whose status is \<open>active\<close>.\<close>

definition activeCount :: "db \<Rightarrow> nat \<Rightarrow> nat" where
  "activeCount d userId =
     length (filter (\<lambda>i. i_user_id i = userId \<and> i_status i = Active) (investments d))"

text \<open>
  A slot has its debit when the ledger holds a negative investment entry linked to it; the
  invariant of the specification says that the active slots are exactly the slots with
  their debit.
\<close>

definition hasDebit :: "db \<Rightarrow> nat \<Rightarrow> bool" where
  "hasDebit d slotId =
     list_ex (\<lambda>t. t_type t = Investment \<and> t_amount t < 0 \<and> t_investment_id t = Some slotId)
       (transactions d)"

definition activeIffDebit :: "db \<Rightarrow> bool" where
  "activeIffDebit d =
     list_all (\<lambda>i. (i_status i = Active) = hasDebit d (i_id i)) (investments d)"

text \<open>
  What a successful open-or-switch does to the slots that were there (the rows with the
  id of the active slot it read become \<open>terminated\<close>), and the slot it inserts.
\<close>

definition supersede :: "db \<Rightarrow> nat \<Rightarrow> investment \<Rightarrow> investment" where
  "supersede d userId i =
     (case existingActiveInvestment d userId of
        None \<Rightarrow> i
      | Some (e, p) \<Rightarrow> if i_id i = i_id e then i\<lparr>i_status := Terminated\<rparr> else i)"

definition openedSlot :: "db \<Rightarrow> nat \<Rightarrow> nat \<Rightarrow> rat \<Rightarrow> investment" where
  "openedSlot d userId packageId amount =
     \<lparr>i_id = next_investment_id d, i_user_id = userId, i_package_id = packageId,
      i_deposit_amount = amount, i_total_accruals = 0, i_status = Active,
      i_wallet = Some ''balance'', i_transaction_txt = Some ''BALANCE_INVESTMENT''\<rparr>"

text \<open>An active slot of the account.\<close>

abbreviation activeOf :: "nat \<Rightarrow> investment \<Rightarrow> bool" where
  "activeOf userId i \<equiv> i_user_id i = userId \<and> i_status i = Active"

text \<open>
  Referential integrity of the account's active slots (each names a tier of the
  catalogue), and freshness of the AUTOINCREMENT counter (every stored id is below it).
\<close>

definition slotsHaveTier :: "db \<Rightarrow> nat \<Rightarrow> bool" where
  "slotsHaveTier d userId =
     list_all (\<lambda>i. i_user_id i = userId \<and> i_status i = Active
                    \<longrightarrow> findPackage d (i_package_id i) \<noteq> None)
       (investments d)"

definition idsFresh :: "db \<Rightarrow> bool" where
  "idsFresh d = list_all (\<lambda>i. i_id i < next_investment_id d) (investments d)"

section \<open>Two requests of one account\<close>

text \<open>
  Two open-or-switch requests of one account, the second started when the first has
  answered.
\<close>

definition investFromBalance_serial ::
  "db \<Rightarrow> nat \<Rightarrow> nat \<Rightarrow> rat \<Rightarrow> nat \<Rightarrow> rat
     \<Rightarrow> (error + invest_response) \<times> (error + invest_response) \<times> db" where
  "investFromBalance_serial d userId packageA amountA packageB amountB =
     (case investFromBalance d userId packageA amountA of
        (respA, d1) \<Rightarrow>
          (case investFromBalance d1 userId packageB amountB of
             (respB, d2) \<Rightarrow> (respA, respB, d2)))"

text \<open>
  The same two requests in flight at once. Every \<open>await\<close> of a handler hands control
  back to the event loop, each \<open>dbGet\<close>, \<open>dbQuery\<close> and \<open>dbRun\<close> opens a connection of
  its own and commits its one statement, and no lock or transaction spans the handler: the
  statements of two requests may interleave in any order that keeps each request's own
  order. This is the schedule in which the reads of both requests are answered before the
  first write of either: both read the database \<open>d\<close>, then the first request's writes
  run, then the second's.
\<close>

definition investFromBalance_interleaved ::
  "db \<Rightarrow> nat \<Rightarrow> nat \<Rightarrow> rat \<Rightarrow> nat \<Rightarrow> rat
     \<Rightarrow> (error + invest_response) \<times> (error + invest_response) \<times> db" where
  "investFromBalance_interleaved d userId packageA amountA packageB amountB =
     (let readsA = investFromBalance_reads d userId packageA amountA;
          readsB = investFromBalance_reads d userId packageB amountB;
          (respA, d1) =
            (case readsA of
               Inl e \<Rightarrow> (Inl e, d)
             | Inr pl \<Rightarrow> (case investFromBalance_writes d pl of (r, d') \<Rightarrow> (Inr r, d')));
          (respB, d2) =
            (case readsB of
               Inl e \<Rightarrow> (Inl e, d1)
             | Inr pl \<Rightarrow> (case investFromBalance_writes d1 pl of (r, d') \<Rightarrow> (Inr r, d')))
      in (respA, respB, d2))"
section \<open>Example data\<close>

text \<open>
  One account with a configured withdrawal destination, two tiers of the seeded catalogue
  (L1 costs 200, L2 costs 350) and an approved deposit of 500.
\<close>

definition ex_user :: user where
  "ex_user = \<lparr>u_id = 1, u_phone = Some ''0977000001'', u_level = None,
      u_withdrawal_password = Some ''hash'', u_withdrawal_wallet = Some ''airtel'',
      u_withdrawal_phone = None, u_last_withdrawal_date = None\<rparr>"

definition ex_packages :: "package list" where
  "ex_packages = [\<lparr>p_id = 1, p_amount = 200, p_daily_rate = 3 / 100, p_level = ''L1''\<rparr>,
                  \<lparr>p_id = 2, p_amount = 350, p_daily_rate = 8 / 350, p_level = ''L2''\<rparr>]"

definition ex_db :: db where
  "ex_db = \<lparr>users = [ex_user], packages = ex_packages, investments = [],
     transactions = [\<lparr>t_user_id = 1, t_type = Deposit, t_amount = 500, t_investment_id = None\<rparr>],
     withdrawal_requests = [], next_investment_id = 1, next_request_id = 1\<rparr>"



text \<open>
  The same account with a deposit request of 300 waiting for the operator (what
  \<open>POST /api/recharge\<close> inserts: a \<open>pending\<close> row and no ledger entry).
\<close>

definition ex_pending_deposit :: investment where
  "ex_pending_deposit =
     \<lparr>i_id = 1, i_user_id = 1, i_package_id = 1, i_deposit_amount = 300,
      i_total_accruals = 0, i_status = Pending, i_wallet = Some ''airtel'',
      i_transaction_txt = Some ''TXN12345''\<rparr>"

definition ex_pending_db :: db where
  "ex_pending_db = ex_db\<lparr>investments := [ex_pending_deposit], next_investment_id := 2\<rparr>"





text \<open>
  The example account after \<open>POST /api/invest-from-balance\<close> for L2 (350): one active
  slot of principal 350 and a remaining projected balance of 150.
\<close>

definition ex_invested_db :: db where
  "ex_invested_db = snd (investFromBalance ex_db 1 2 350)"

text \<open>
  A payment processor that confirms the references \<open>PAY-1\<close> and \<open>PAY-2\<close>, and the
  example account after \<open>POST /api/invest\<close> for L1 with the first of them.
\<close>

definition ex_verifyPayment :: "string \<Rightarrow> bool" where
  "ex_verifyPayment reference = (reference = ''PAY-1'' \<or> reference = ''PAY-2'')"

definition ex_paid_db :: db where
  "ex_paid_db = snd (invest ex_verifyPayment ex_db 1 1 200 ''PAY-1'')"

text \<open>
  The switch scenario of the specification: a deposit of 600, L1 opened from balance
  (balance 400), then a switch to L2 (balance 50).
\<close>

definition ex_scenario_db :: db where
  "ex_scenario_db =
     ex_db\<lparr>transactions :=
             [\<lparr>t_user_id = 1, t_type = Deposit, t_amount = 600, t_investment_id = None\<rparr>]\<rparr>"

definition ex_switched_db :: db where
  "ex_switched_db =
     snd (investFromBalance (snd (investFromBalance ex_scenario_db 1 1 200)) 1 2 350)"
section \<open>Facts about the balance folds\<close>

lemma foldl_plus_acc:
  "foldl (\<lambda>sum t. sum + f t) a xs = a + sum_list (map f xs)" for a :: rat
  by (induction xs arbitrary: a) (simp_all add: add.assoc)

lemma foldl_plus_sum_list:
  "foldl (\<lambda>sum t. sum + f t) (0::rat) xs = sum_list (map f xs)"
  by (simp add: foldl_plus_acc)

lemma accrual_or_bonus_sum:
  "sum_list (map t_amount (filter (\<lambda>t. t_type t = Accrual \<or> t_type t = Bonus) ts))
     = sumOfKind Accrual ts + sumOfKind Bonus ts"
  by (induction ts) (auto simp: sumOfKind_def)

lemma invest_availableBalance_closed:
  "invest_availableBalance ts = guarded_projectBalance ts"
  by (simp add: invest_availableBalance_def guarded_projectBalance_def positiveDeposits_def
      foldl_plus_sum_list accrual_or_bonus_sum Let_def) (simp add: sumOfKind_def)

lemma withdraw_availableBalance_closed:
  "withdraw_availableBalance ts = guarded_projectBalance ts"
  by (simp add: withdraw_availableBalance_def guarded_projectBalance_def positiveDeposits_def
      foldl_plus_sum_list accrual_or_bonus_sum Let_def) (simp add: sumOfKind_def)


section \<open>Facts about the storage helpers\<close>

lemma find_map_invariant:
  "(\<And>x. P (f x) = P x) \<Longrightarrow> List.find P (map f xs) = map_option f (List.find P xs)"
  by (induction xs) simp_all

lemma find_SomeD: "List.find P xs = Some x \<Longrightarrow> P x"
  by (induction xs) (auto split: if_splits)

lemma findDeposit_setStatus:
  "findDeposit d depositId = Some deposit \<Longrightarrow>
     findDeposit (setInvestmentStatus d depositId st) depositId
       = Some (deposit\<lparr>i_status := st\<rparr>)"
proof -
  assume a: "findDeposit d depositId = Some deposit"
  let ?P = "\<lambda>i. i_id i = depositId \<and> getUserById d (i_user_id i) \<noteq> None"
  let ?f = "\<lambda>i. if i_id i = depositId then i\<lparr>i_status := st\<rparr> else i"
  have inv: "\<And>x. ?P (?f x) = ?P x" by simp
  have id: "i_id deposit = depositId"
    using find_SomeD [of ?P "investments d" deposit] a by (simp add: findDeposit_def)
  have "List.find ?P (map ?f (investments d)) = map_option ?f (List.find ?P (investments d))"
    by (rule find_map_invariant) (rule inv)
  with a id show ?thesis
    by (simp add: findDeposit_def setInvestmentStatus_def getUserById_def)
qed

lemma findDeposit_insertTransaction [simp]:
  "findDeposit (insertTransaction d t) depositId = findDeposit d depositId"
  by (simp add: findDeposit_def insertTransaction_def getUserById_def)

lemma transactions_setInvestmentStatus [simp]:
  "transactions (setInvestmentStatus d i st) = transactions d"
  by (simp add: setInvestmentStatus_def)

lemma transactions_insertTransaction [simp]:
  "transactions (insertTransaction d t) = transactions d @ [t]"
  by (simp add: insertTransaction_def)

lemma setInvestmentStatus_insertTransaction:
  "setInvestmentStatus (insertTransaction d t) i st = insertTransaction (setInvestmentStatus d i st) t"
  by (simp add: setInvestmentStatus_def insertTransaction_def)

lemma processDeposit_not_pending:
  "findDeposit d depositId = Some deposit \<Longrightarrow> i_status deposit \<noteq> Pending \<Longrightarrow>
     processDeposit d depositId act = (Inl (DepositAlreadyProcessed (i_status deposit)), d)"
  by (simp add: processDeposit_def)

lemma processDeposit_pending_find:
  assumes "findDeposit d depositId = Some deposit" "i_status deposit = Pending"
  shows "findDeposit (snd (processDeposit d depositId act)) depositId
           = Some (deposit\<lparr>i_status := decidedStatus act\<rparr>)"
  using assms
  by (simp add: processDeposit_def decidedStatus_def Let_def findDeposit_setStatus
      setInvestmentStatus_insertTransaction)


lemma getUserById_updateRequest [simp]:
  "getUserById (updateRequest d r st a n) x = getUserById d x"
  by (simp add: getUserById_def updateRequest_def)

lemma getUserById_insertTransaction [simp]:
  "getUserById (insertTransaction d t) x = getUserById d x"
  by (simp add: getUserById_def insertTransaction_def)




lemma transactions_updateRequest [simp]:
  "transactions (updateRequest d r st a n) = transactions d"
  by (simp add: updateRequest_def)

lemma transactions_setLastWithdrawalDate [simp]:
  "transactions (setLastWithdrawalDate d u t) = transactions d"
  by (simp add: setLastWithdrawalDate_def)

lemma withdrawal_requests_setLastWithdrawalDate [simp]:
  "withdrawal_requests (setLastWithdrawalDate d u t) = withdrawal_requests d"
  by (simp add: setLastWithdrawalDate_def)

lemma withdrawal_requests_insertTransaction [simp]:
  "withdrawal_requests (insertTransaction d t) = withdrawal_requests d"
  by (simp add: insertTransaction_def)





section \<open>Facts about the withdrawal handlers\<close>


lemmas ex_defs = ex_db_def ex_user_def ex_packages_def








lemmas invest_eval =
  investFromBalance_def investFromBalance_reads_def investFromBalance_writes_def
  findPackage_def getUserById_def existingActiveInvestment_def joinPackage_def
  List.map_filter_simps userTransactions_def invest_availableBalance_def
  insertInvestment_def insertTransaction_def setUserLevel_def setInvestmentStatus_def Let_def

lemma ex_invested_db_value:
  "ex_invested_db =
     \<lparr>users = [ex_user\<lparr>u_level := Some ''L2''\<rparr>], packages = ex_packages,
      investments =
        [\<lparr>i_id = 1, i_user_id = 1, i_package_id = 2, i_deposit_amount = 350,
          i_total_accruals = 0, i_status = Active, i_wallet = Some ''balance'',
          i_transaction_txt = Some ''BALANCE_INVESTMENT''\<rparr>],
      transactions =
        [\<lparr>t_user_id = 1, t_type = Deposit, t_amount = 500, t_investment_id = None\<rparr>,
         \<lparr>t_user_id = 1, t_type = Investment, t_amount = - 350, t_investment_id = Some 1\<rparr>],
      withdrawal_requests = [], next_investment_id = 2, next_request_id = 1\<rparr>"
  by (simp add: ex_invested_db_def invest_eval ex_defs)

section \<open>Facts about the accrual job\<close>

lemma accrualLoop_transactions:
  "transactions (accrualLoop rows d) = transactions d @ map accrualEntry rows"
  by (induction rows arbitrary: d) (simp_all add: insertTransaction_def addAccruals_def)

lemma accrualLoop_packages:
  "packages (accrualLoop rows d) = packages d"
  by (induction rows arbitrary: d) (simp_all add: insertTransaction_def addAccruals_def)

lemma creditedBy_Nil: "creditedBy [] j = j"
  by (simp add: creditedBy_def)

lemma creditedBy_Cons:
  "creditedBy (row # rows) j =
     creditedBy rows
       (if i_id j = i_id (fst row)
        then j\<lparr>i_total_accruals := i_total_accruals j + dailyAccrual row\<rparr> else j)"
  by (simp add: creditedBy_def add.assoc)

lemma accrualLoop_investments:
  "investments (accrualLoop rows d) = map (creditedBy rows) (investments d)"
proof (induction rows arbitrary: d)
  case Nil
  show ?case by (simp add: creditedBy_Nil)
next
  case (Cons row rows)
  show ?case
    by (simp add: Cons.IH insertTransaction_def addAccruals_def creditedBy_Cons o_def)
qed

lemma activeInvestments_rowsOf: "activeInvestments d = rowsOf d (investments d)"
  by (simp add: activeInvestments_def rowsOf_def)

lemma rowsOf_Cons:
  "rowsOf d (x # xs) = rowsOf d [x] @ rowsOf d xs"
  by (simp add: rowsOf_def List.map_filter_simps split: option.splits)

lemma rowsOf_Nil: "rowsOf d [] = []"
  by (simp add: rowsOf_def List.map_filter_simps)

lemma rowsOf_single_fst:
  "r \<in> set (rowsOf d [x]) \<Longrightarrow> fst r = x"
  by (auto simp: rowsOf_def List.map_filter_simps joinPackage_def split: option.splits if_splits)

lemma rowsOf_fst:
  "r \<in> set (rowsOf d xs) \<Longrightarrow> fst r \<in> set xs"
proof (induction xs)
  case Nil
  then show ?case by (simp add: rowsOf_Nil)
next
  case (Cons x xs)
  then show ?case
    using rowsOf_single_fst [of r d x] by (auto simp: rowsOf_Cons [of d x xs])
qed

lemma filter_rowsOf_absent:
  "i_id j \<notin> i_id ` set xs \<Longrightarrow> filter (\<lambda>r. i_id (fst r) = i_id j) (rowsOf d xs) = []"
  by (force simp: filter_empty_conv dest: rowsOf_fst)

lemma filter_rowsOf_single:
  "filter (\<lambda>r. i_id (fst r) = i_id j) (rowsOf d [j]) = rowsOf d [j]"
  using rowsOf_single_fst [of _ d j] by (auto simp: filter_id_conv)

lemma filter_rowsOf_distinct:
  "distinct (map i_id xs) \<Longrightarrow> j \<in> set xs \<Longrightarrow>
     filter (\<lambda>r. i_id (fst r) = i_id j) (rowsOf d xs) = rowsOf d [j]"
proof (induction xs)
  case Nil
  then show ?case by simp
next
  case (Cons x xs)
  show ?case
  proof (cases "x = j")
    case True
    with Cons.prems have "i_id j \<notin> i_id ` set xs" by simp
    then show ?thesis
      using True by (simp add: rowsOf_Cons [of d j xs] filter_rowsOf_absent filter_rowsOf_single)
  next
    case False
    with Cons.prems have jin: "j \<in> set xs" and ne: "i_id x \<noteq> i_id j" by auto
    have "filter (\<lambda>r. i_id (fst r) = i_id j) (rowsOf d [x]) = []"
      using rowsOf_single_fst [of _ d x] ne by (auto simp: filter_empty_conv)
    with Cons.IH Cons.prems jin show ?thesis
      by (simp add: rowsOf_Cons [of d x xs])
  qed
qed

lemma creditedBy_single:
  "creditedBy (rowsOf d [j]) j = creditSlot d j"
  by (simp add: creditedBy_def creditSlot_def rowsOf_def List.map_filter_simps joinPackage_def
      dailyAccrual_def split: option.splits)

lemma runDailyAccrual_investments:
  assumes "distinct (map i_id (investments d))"
  shows "investments (snd (runDailyAccrual d)) = map (creditSlot d) (investments d)"
proof -
  have "creditedBy (activeInvestments d) j = creditSlot d j" if "j \<in> set (investments d)" for j
  proof -
    have "creditedBy (activeInvestments d) j = creditedBy (rowsOf d [j]) j"
      using filter_rowsOf_distinct [OF assms that, of d] filter_rowsOf_single [of j d]
      by (simp add: creditedBy_def activeInvestments_rowsOf)
    then show ?thesis by (simp add: creditedBy_single)
  qed
  then show ?thesis
    by (simp add: runDailyAccrual_def Let_def accrualLoop_investments)
qed

lemma accrualEntry_creditedBy:
  "accrualEntry (creditedBy rows i, p) = accrualEntry (i, p)"
  by (simp add: accrualEntry_def dailyAccrual_def creditedBy_def)

lemma rowsOf_credited:
  "packages d' = packages d \<Longrightarrow>
     map accrualEntry (rowsOf d' (map (creditedBy rows) xs)) = map accrualEntry (rowsOf d xs)"
proof (induction xs)
  case Nil
  then show ?case by (simp add: rowsOf_Nil)
next
  case (Cons x xs)
  have one: "map accrualEntry (rowsOf d' [creditedBy rows x]) = map accrualEntry (rowsOf d [x])"
    using Cons.prems
    by (auto simp: rowsOf_def List.map_filter_simps joinPackage_def findPackage_def
        accrualEntry_creditedBy creditedBy_def accrualEntry_def dailyAccrual_def
        split: option.splits)
  show ?case
    using Cons one
    by (simp add: rowsOf_Cons [of d' "creditedBy rows x" "map (creditedBy rows) xs"]
        rowsOf_Cons [of d x xs])
qed

lemma runDailyAccrual_transactions:
  "transactions (snd (runDailyAccrual d)) = transactions d @ map accrualEntry (activeInvestments d)"
  by (simp add: runDailyAccrual_def Let_def accrualLoop_transactions)

lemma runDailyAccrual_entries_again:
  "map accrualEntry (activeInvestments (snd (runDailyAccrual d)))
     = map accrualEntry (activeInvestments d)"
  by (simp add: runDailyAccrual_def Let_def activeInvestments_rowsOf accrualLoop_investments
      rowsOf_credited accrualLoop_packages)

lemmas accrual_eval =
  runDailyAccrual_def activeInvestments_def joinPackage_def findPackage_def
  List.map_filter_simps dailyAccrual_def accrualEntry_def addAccruals_def
  insertTransaction_def Let_def

section \<open>Facts about the investment handlers\<close>

lemma investFromBalance_reads_plan:
  "investFromBalance_reads d userId packageId amount = Inr pl \<Longrightarrow>
     pl_userId pl = userId \<and> pl_packageId pl = packageId \<and> pl_amount pl = amount
     \<and> 1 \<le> amount
     \<and> pl_existing pl
         = map_option (\<lambda>(i, p). (i_id i, p_level p)) (existingActiveInvestment d userId)
     \<and> findPackage d packageId \<noteq> None
     \<and> amount \<le> invest_availableBalance (userTransactions d userId)"
  unfolding investFromBalance_reads_def Let_def
  by (auto split: if_splits option.splits)

lemma investFromBalance_failure:
  "isl (fst (investFromBalance d userId packageId amount)) \<Longrightarrow>
     snd (investFromBalance d userId packageId amount) = d"
  by (auto simp: investFromBalance_def split: sum.splits prod.splits)

lemma writes_investments:
  "investments (snd (investFromBalance_writes d pl))
     = map (\<lambda>i. case pl_existing pl of
                    None \<Rightarrow> i
                  | Some (existingId, lvl) \<Rightarrow>
                      if i_id i = existingId then i\<lparr>i_status := Terminated\<rparr> else i)
         (investments d)
       @ [\<lparr>i_id = next_investment_id d, i_user_id = pl_userId pl,
           i_package_id = pl_packageId pl, i_deposit_amount = pl_amount pl,
           i_total_accruals = 0, i_status = Active, i_wallet = Some ''balance'',
           i_transaction_txt = Some ''BALANCE_INVESTMENT''\<rparr>]"
  by (auto simp: investFromBalance_writes_def Let_def insertInvestment_def
      insertTransaction_def setUserLevel_def setInvestmentStatus_def split: option.splits)

lemma writes_transactions:
  "transactions (snd (investFromBalance_writes d pl))
     = transactions d
       @ [\<lparr>t_user_id = pl_userId pl, t_type = Investment, t_amount = - pl_amount pl,
           t_investment_id = Some (next_investment_id d)\<rparr>]"
  by (auto simp: investFromBalance_writes_def Let_def insertInvestment_def
      insertTransaction_def setUserLevel_def setInvestmentStatus_def split: option.splits)

lemma writes_response:
  "r_investmentId (fst (investFromBalance_writes d pl)) = next_investment_id d"
  by (auto simp: investFromBalance_writes_def Let_def insertInvestment_def
      insertTransaction_def setUserLevel_def setInvestmentStatus_def split: option.splits)

lemma writes_packages:
  "packages (snd (investFromBalance_writes d pl)) = packages d"
  by (auto simp: investFromBalance_writes_def Let_def insertInvestment_def
      insertTransaction_def setUserLevel_def setInvestmentStatus_def split: option.splits)

lemma writes_next_id:
  "next_investment_id (snd (investFromBalance_writes d pl)) = Suc (next_investment_id d)"
  by (auto simp: investFromBalance_writes_def Let_def insertInvestment_def
      insertTransaction_def setUserLevel_def setInvestmentStatus_def split: option.splits)

lemma investFromBalance_success:
  assumes "fst (investFromBalance d userId packageId amount) = Inr resp"
  shows "\<exists>pl. investFromBalance_reads d userId packageId amount = Inr pl
              \<and> resp = fst (investFromBalance_writes d pl)
              \<and> snd (investFromBalance d userId packageId amount)
                  = snd (investFromBalance_writes d pl)"
  using assms by (auto simp: investFromBalance_def split: sum.splits prod.splits)

lemma supersede_plan:
  "pl_existing pl
     = map_option (\<lambda>(i, p). (i_id i, p_level p)) (existingActiveInvestment d userId) \<Longrightarrow>
   (case pl_existing pl of
      None \<Rightarrow> i
    | Some (existingId, lvl) \<Rightarrow>
        if i_id i = existingId then i\<lparr>i_status := Terminated\<rparr> else i) = supersede d userId i"
  by (auto simp: supersede_def split: option.splits)

lemmas pay_eval =
  invest_def findPackage_def getUserById_def insertInvestment_def insertTransaction_def Let_def

lemma ex_paid_db_value:
  "ex_paid_db =
     ex_db\<lparr>investments :=
              [\<lparr>i_id = 1, i_user_id = 1, i_package_id = 1, i_deposit_amount = 200,
                i_total_accruals = 0, i_status = Active, i_wallet = None,
                i_transaction_txt = None\<rparr>],
            transactions :=
              [\<lparr>t_user_id = 1, t_type = Deposit, t_amount = 500, t_investment_id = None\<rparr>,
               \<lparr>t_user_id = 1, t_type = Deposit, t_amount = 200, t_investment_id = Some 1\<rparr>],
            next_investment_id := 2\<rparr>"
  by (simp add: ex_paid_db_def pay_eval ex_defs ex_verifyPayment_def)

lemma ex_switched_db_value:
  "investments ex_switched_db =
     [\<lparr>i_id = 1, i_user_id = 1, i_package_id = 1, i_deposit_amount = 200,
       i_total_accruals = 0, i_status = Terminated, i_wallet = Some ''balance'',
       i_transaction_txt = Some ''BALANCE_INVESTMENT''\<rparr>,
      \<lparr>i_id = 2, i_user_id = 1, i_package_id = 2, i_deposit_amount = 350,
       i_total_accruals = 0, i_status = Active, i_wallet = Some ''balance'',
       i_transaction_txt = Some ''BALANCE_INVESTMENT''\<rparr>]
   \<and> transactions ex_switched_db =
     [\<lparr>t_user_id = 1, t_type = Deposit, t_amount = 600, t_investment_id = None\<rparr>,
      \<lparr>t_user_id = 1, t_type = Investment, t_amount = - 200, t_investment_id = Some 1\<rparr>,
      \<lparr>t_user_id = 1, t_type = Investment, t_amount = - 350, t_investment_id = Some 2\<rparr>]"
  by (simp add: ex_switched_db_def ex_scenario_db_def invest_eval ex_defs)

section \<open>Facts about two requests of one account\<close>

lemma existing_None_no_active:
  assumes "slotsHaveTier d userId" and "existingActiveInvestment d userId = None"
  shows "filter (activeOf userId) (investments d) = []"
proof (rule ccontr)
  assume "filter (activeOf userId) (investments d) \<noteq> []"
  then obtain x xs where f: "filter (activeOf userId) (investments d) = x # xs"
    by (cases "filter (activeOf userId) (investments d)") auto
  then have "x \<in> set (filter (activeOf userId) (investments d))" by simp
  then have "x \<in> set (investments d)" and "activeOf userId x" by auto
  with assms(1) have "findPackage d (i_package_id x) \<noteq> None"
    by (auto simp: slotsHaveTier_def list_all_iff)
  then have "List.map_filter (joinPackage d) (x # xs) \<noteq> []"
    by (auto simp: joinPackage_def)
  with assms(2) f show False
    by (simp add: existingActiveInvestment_def split: list.splits)
qed

lemma existing_Some_active:
  assumes "existingActiveInvestment d userId = Some (e, p)"
  shows "e \<in> set (filter (activeOf userId) (investments d))"
proof -
  from assms have "(e, p) \<in> set (List.map_filter (joinPackage d)
                                   (filter (activeOf userId) (investments d)))"
    by (auto simp: existingActiveInvestment_def split: list.splits)
  then show ?thesis
    by (auto simp: List.map_filter_def joinPackage_def)
qed

lemma single_member: "length xs \<le> 1 \<Longrightarrow> e \<in> set xs \<Longrightarrow> xs = [e]"
  by (cases xs) auto

lemma supersede_no_active:
  assumes "slotsHaveTier d userId" and "activeCount d userId \<le> 1"
  shows "filter (activeOf userId) (map (supersede d userId) (investments d)) = []"
proof (cases "existingActiveInvestment d userId")
  case None
  then have "\<And>i. supersede d userId i = i"
    by (simp add: supersede_def)
  then have "map (supersede d userId) (investments d) = investments d"
    by (simp add: map_idI)
  with existing_None_no_active [OF assms(1) None] show ?thesis by simp
next
  case (Some row)
  obtain e p where row: "row = (e, p)" by (cases row)
  with Some have ex: "existingActiveInvestment d userId = Some (e, p)" by simp
  have one: "filter (activeOf userId) (investments d) = [e]"
    using single_member [OF _ existing_Some_active [OF ex]] assms(2)
    by (simp add: activeCount_def)
  have "\<not> activeOf userId (supersede d userId i)" if "i \<in> set (investments d)" for i
  proof (cases "activeOf userId i")
    case True
    with that have "i \<in> set (filter (activeOf userId) (investments d))" by simp
    with one have "i = e" by simp
    then show ?thesis by (simp add: supersede_def ex)
  next
    case False
    then show ?thesis by (auto simp: supersede_def ex)
  qed
  then show ?thesis by (auto simp: filter_empty_conv)
qed

lemma supersede_keeps_tier:
  "activeOf userId (supersede d u i) \<Longrightarrow> activeOf userId i"
  by (auto simp: supersede_def split: option.splits if_splits)

lemma supersede_package_id [simp]:
  "i_package_id (supersede d u i) = i_package_id i"
  by (auto simp: supersede_def split: option.splits)

lemma investFromBalance_packages:
  "packages (snd (investFromBalance d userId packageId amount)) = packages d"
  by (auto simp: investFromBalance_def writes_packages split: sum.splits prod.splits)
     (metis snd_conv writes_packages)

lemma investFromBalance_investments:
  assumes "fst (investFromBalance d userId packageId amount) = Inr resp"
  shows "investments (snd (investFromBalance d userId packageId amount))
           = map (supersede d userId) (investments d) @ [openedSlot d userId packageId amount]
         \<and> findPackage d packageId \<noteq> None"
proof -
  obtain pl where r: "investFromBalance_reads d userId packageId amount = Inr pl"
    and st: "snd (investFromBalance d userId packageId amount)
               = snd (investFromBalance_writes d pl)"
    using investFromBalance_success [OF assms] by blast
  note p = investFromBalance_reads_plan [OF r]
  have ex: "pl_existing pl
      = map_option (\<lambda>(i, p). (i_id i, p_level p)) (existingActiveInvestment d userId)"
    using p by simp
  have "investments (snd (investFromBalance_writes d pl))
          = map (supersede d userId) (investments d)
            @ [\<lparr>i_id = next_investment_id d, i_user_id = pl_userId pl,
                i_package_id = pl_packageId pl, i_deposit_amount = pl_amount pl,
                i_total_accruals = 0, i_status = Active, i_wallet = Some ''balance'',
                i_transaction_txt = Some ''BALANCE_INVESTMENT''\<rparr>]"
    by (simp only: writes_investments supersede_plan [OF ex])
  with p st show ?thesis by (simp add: openedSlot_def)
qed

lemma findPackage_cong:
  "packages d' = packages d \<Longrightarrow> findPackage d' x = findPackage d x"
  by (simp add: findPackage_def)

lemma investFromBalance_single_active:
  assumes "slotsHaveTier d userId" and "activeCount d userId \<le> 1"
  shows "activeCount (snd (investFromBalance d userId packageId amount)) userId \<le> 1
       \<and> slotsHaveTier (snd (investFromBalance d userId packageId amount)) userId"
proof (cases "fst (investFromBalance d userId packageId amount)")
  case (Inl e)
  then have "snd (investFromBalance d userId packageId amount) = d"
    by (simp add: investFromBalance_failure)
  with assms show ?thesis by simp
next
  case (Inr resp)
  let ?d' = "snd (investFromBalance d userId packageId amount)"
  note i = investFromBalance_investments [OF Inr]
  have pk: "\<And>x. findPackage ?d' x = findPackage d x"
    by (rule findPackage_cong) (rule investFromBalance_packages)
  have cnt: "activeCount ?d' userId = 1"
    using i supersede_no_active [OF assms]
    by (simp add: activeCount_def openedSlot_def)
  have "findPackage d (i_package_id j) \<noteq> None"
    if "j \<in> set (map (supersede d userId) (investments d))" and "activeOf userId j" for j
  proof -
    from that(1) obtain k where k: "k \<in> set (investments d)" and j: "j = supersede d userId k"
      by auto
    from that(2) j supersede_keeps_tier [where userId = userId and d = d and u = userId and i = k] have "activeOf userId k"
      by simp
    with k assms(1) have "findPackage d (i_package_id k) \<noteq> None"
      by (auto simp: slotsHaveTier_def list_all_iff)
    with j show ?thesis by simp
  qed
  then have "slotsHaveTier ?d' userId"
    using i unfolding slotsHaveTier_def list_all_iff pk
    by (auto simp: openedSlot_def)
  with cnt show ?thesis by simp
qed

lemma existing_id_fresh:
  assumes "idsFresh d"
    and "pl_existing pl
           = map_option (\<lambda>(i, p). (i_id i, p_level p)) (existingActiveInvestment d userId)"
    and "pl_existing pl = Some (existingId, lvl)"
  shows "existingId < next_investment_id d"
proof -
  from assms(2,3) obtain e p where ex: "existingActiveInvestment d userId = Some (e, p)"
    and eid: "existingId = i_id e"
    by (cases "existingActiveInvestment d userId") auto
  from existing_Some_active [OF ex] have "e \<in> set (investments d)" by simp
  with assms(1) eid show ?thesis by (auto simp: idsFresh_def list_all_iff)
qed

lemma interleaved_both_succeed:
  assumes fresh: "idsFresh d"
    and rA: "investFromBalance_reads d userId packageA amountA = Inr plA"
    and rB: "investFromBalance_reads d userId packageB amountB = Inr plB"
  shows "\<not> isl (fst (investFromBalance_interleaved d userId packageA amountA packageB amountB))
       \<and> \<not> isl (fst (snd (investFromBalance_interleaved d userId packageA amountA
                               packageB amountB)))
       \<and> 2 \<le> activeCount
                (snd (snd (investFromBalance_interleaved d userId packageA amountA
                             packageB amountB))) userId"
proof -
  let ?d1 = "snd (investFromBalance_writes d plA)"
  let ?d2 = "snd (investFromBalance_writes ?d1 plB)"
  have out: "investFromBalance_interleaved d userId packageA amountA packageB amountB
               = (Inr (fst (investFromBalance_writes d plA)),
                  Inr (fst (investFromBalance_writes ?d1 plB)), ?d2)"
    by (simp add: investFromBalance_interleaved_def rA rB Let_def split: prod.splits)
  note pA = investFromBalance_reads_plan [OF rA]
  note pB = investFromBalance_reads_plan [OF rB]
  let ?newA = "\<lparr>i_id = next_investment_id d, i_user_id = pl_userId plA,
                i_package_id = pl_packageId plA, i_deposit_amount = pl_amount plA,
                i_total_accruals = 0, i_status = Active, i_wallet = Some ''balance'',
                i_transaction_txt = Some ''BALANCE_INVESTMENT''\<rparr>"
  let ?gB = "\<lambda>i. case pl_existing plB of
                    None \<Rightarrow> i
                  | Some (existingId, lvl) \<Rightarrow>
                      if i_id i = existingId then i\<lparr>i_status := Terminated\<rparr> else i"
  have keep: "?gB ?newA = ?newA"
  proof (cases "pl_existing plB")
    case None
    then show ?thesis by simp
  next
    case (Some row)
    obtain existingId lvl where row: "row = (existingId, lvl)" by (cases row)
    have "existingId < next_investment_id d"
      using existing_id_fresh [OF fresh _ Some [unfolded row]] pB by simp
    then show ?thesis by (simp add: Some row)
  qed
  have inv1: "investments ?d1 = map (\<lambda>i. case pl_existing plA of
                    None \<Rightarrow> i
                  | Some (existingId, lvl) \<Rightarrow>
                      if i_id i = existingId then i\<lparr>i_status := Terminated\<rparr> else i)
                 (investments d) @ [?newA]"
    by (rule writes_investments)
  have inv2: "investments ?d2 = map ?gB (investments ?d1)
       @ [\<lparr>i_id = next_investment_id ?d1, i_user_id = pl_userId plB,
           i_package_id = pl_packageId plB, i_deposit_amount = pl_amount plB,
           i_total_accruals = 0, i_status = Active, i_wallet = Some ''balance'',
           i_transaction_txt = Some ''BALANCE_INVESTMENT''\<rparr>]"
    by (rule writes_investments)
  let ?gA = "\<lambda>i. case pl_existing plA of
                    None \<Rightarrow> i
                  | Some (existingId, lvl) \<Rightarrow>
                      if i_id i = existingId then i\<lparr>i_status := Terminated\<rparr> else i"
  let ?newB = "\<lparr>i_id = next_investment_id ?d1, i_user_id = pl_userId plB,
           i_package_id = pl_packageId plB, i_deposit_amount = pl_amount plB,
           i_total_accruals = 0, i_status = Active, i_wallet = Some ''balance'',
           i_transaction_txt = Some ''BALANCE_INVESTMENT''\<rparr>"
  have "investments ?d2 = map ?gB (map ?gA (investments d)) @ [?gB ?newA, ?newB]"
    unfolding inv2 inv1 by (simp only: map_append list.map append.simps append_assoc)
  then have inv2': "investments ?d2 = map ?gB (map ?gA (investments d)) @ [?newA, ?newB]"
    by (simp only: keep)
  have "2 \<le> activeCount ?d2 userId"
    using pA pB unfolding activeCount_def inv2'
    by simp
  with out show ?thesis by simp
qed

lemma serial_single_active:
  assumes "slotsHaveTier d userId" and "activeCount d userId \<le> 1"
  shows "activeCount
           (snd (snd (investFromBalance_serial d userId packageA amountA packageB amountB)))
           userId \<le> 1"
proof -
  let ?d1 = "snd (investFromBalance d userId packageA amountA)"
  note one = investFromBalance_single_active [OF assms, of packageA amountA]
  note two = investFromBalance_single_active [of ?d1 userId packageB amountB]
  have "snd (snd (investFromBalance_serial d userId packageA amountA packageB amountB))
          = snd (investFromBalance ?d1 userId packageB amountB)"
    by (simp add: investFromBalance_serial_def split: prod.splits)
  with one two show ?thesis by simp
qed

lemmas interleave_eval =
  investFromBalance_interleaved_def investFromBalance_serial_def invest_eval
section \<open>Claims about the balance projection\<close>




text \<open>
  C10. The fold of the invest-from-balance handler and the fold of the withdraw handler
  give the same balance on every list of transactions, and both are the guarded closed
  form: positive deposits only, accruals and bonuses whatever their sign, withdrawals
  subtracted, absolute values of investment entries subtracted.
\<close>

theorem balance_folds_equivalent:
  "invest_availableBalance ts = withdraw_availableBalance ts
   \<and> invest_availableBalance ts = guarded_projectBalance ts
   \<and> withdraw_availableBalance ts = guarded_projectBalance ts"
  by (simp add: invest_availableBalance_closed withdraw_availableBalance_closed)


section \<open>Claims about deposit decisions\<close>

text \<open>
  C6. For a deposit request that is pending: approving it answers \<open>deposit_completed\<close>
  and appends exactly one deposit entry (the request's user and amount, linked to the
  request); denying it answers \<open>denied\<close> and leaves the ledger as it was; either
  decision moves the request out of \<open>pending\<close>; and any further decision on the same
  request fails with "already processed" and leaves the whole database, the ledger
  included, as the first decision left it.
\<close>

theorem decideDeposit_exactly_once:
  assumes "findDeposit d depositId = Some deposit" and "i_status deposit = Pending"
  shows "fst (processDeposit d depositId Approve) = Inr DepositCompleted
       \<and> transactions (snd (processDeposit d depositId Approve))
           = transactions d @ [\<lparr>t_user_id = i_user_id deposit, t_type = Deposit,
                                 t_amount = i_deposit_amount deposit,
                                 t_investment_id = Some depositId\<rparr>]
       \<and> fst (processDeposit d depositId Deny) = Inr Denied
       \<and> transactions (snd (processDeposit d depositId Deny)) = transactions d
       \<and> map_option i_status (findDeposit (snd (processDeposit d depositId act)) depositId)
           = Some (decidedStatus act)
       \<and> processDeposit (snd (processDeposit d depositId act)) depositId act'
           = (Inl (DepositAlreadyProcessed (decidedStatus act)),
              snd (processDeposit d depositId act))"
proof -
  have f: "findDeposit (snd (processDeposit d depositId act)) depositId
             = Some (deposit\<lparr>i_status := decidedStatus act\<rparr>)"
    using assms by (rule processDeposit_pending_find)
  have np: "i_status (deposit\<lparr>i_status := decidedStatus act\<rparr>) \<noteq> Pending"
    by (simp add: decidedStatus_def)
  have second: "processDeposit (snd (processDeposit d depositId act)) depositId act'
           = (Inl (DepositAlreadyProcessed (decidedStatus act)),
              snd (processDeposit d depositId act))"
    using processDeposit_not_pending [OF f np] by simp
  have first: "fst (processDeposit d depositId Approve) = Inr DepositCompleted"
    "transactions (snd (processDeposit d depositId Approve))
           = transactions d @ [\<lparr>t_user_id = i_user_id deposit, t_type = Deposit,
                                 t_amount = i_deposit_amount deposit,
                                 t_investment_id = Some depositId\<rparr>]"
    "fst (processDeposit d depositId Deny) = Inr Denied"
    "transactions (snd (processDeposit d depositId Deny)) = transactions d"
    using assms by (simp_all add: processDeposit_def Let_def)
  from first second f show ?thesis by simp
qed

text \<open>
  C6 at the example deposit request of 300: approve then approve, and deny then approve.
\<close>

theorem decideDeposit_exactly_once_witness:
  "transactions (snd (processDeposit ex_pending_db 1 Approve))
     = transactions ex_pending_db
         @ [\<lparr>t_user_id = 1, t_type = Deposit, t_amount = 300, t_investment_id = Some 1\<rparr>]
   \<and> processDeposit (snd (processDeposit ex_pending_db 1 Approve)) 1 Approve
       = (Inl (DepositAlreadyProcessed DepositCompleted),
          snd (processDeposit ex_pending_db 1 Approve))
   \<and> transactions (snd (processDeposit ex_pending_db 1 Deny)) = transactions ex_pending_db
   \<and> processDeposit (snd (processDeposit ex_pending_db 1 Deny)) 1 Approve
       = (Inl (DepositAlreadyProcessed Denied), snd (processDeposit ex_pending_db 1 Deny))"
proof -
  have h1: "findDeposit ex_pending_db 1 = Some ex_pending_deposit"
    by (simp add: findDeposit_def ex_pending_db_def ex_pending_deposit_def ex_db_def
        getUserById_def ex_user_def)
  have h2: "i_status ex_pending_deposit = Pending"
    by (simp add: ex_pending_deposit_def)
  from decideDeposit_exactly_once [OF h1 h2, of Approve Approve]
       decideDeposit_exactly_once [OF h1 h2, of Deny Approve]
  show ?thesis by (simp add: decidedStatus_def ex_pending_deposit_def)
qed


section \<open>Claims about withdrawals\<close>











section \<open>Claims about the daily accrual job\<close>

text \<open>
  C7 (amended). Each run of the daily accrual job returns the number of active slots
  whose tier is in the catalogue and appends exactly one accrual entry of
  principal * dailyRate for each of them; when slot ids are distinct (the primary key),
  it increases the accumulated accruals of each such slot by that amount, once, and
  changes no other slot. The job keeps no record of the period it ran for: a second run
  appends the same entries a second time.
\<close>

theorem runDailyAccrual_credits_every_run:
  "fst (runDailyAccrual d) = length (activeInvestments d)
   \<and> transactions (snd (runDailyAccrual d))
       = transactions d @ map accrualEntry (activeInvestments d)
   \<and> (distinct (map i_id (investments d)) \<longrightarrow>
        investments (snd (runDailyAccrual d)) = map (creditSlot d) (investments d))
   \<and> transactions (snd (runDailyAccrual (snd (runDailyAccrual d))))
       = transactions d @ map accrualEntry (activeInvestments d)
           @ map accrualEntry (activeInvestments d)"
  by (simp add: runDailyAccrual_transactions runDailyAccrual_entries_again
      runDailyAccrual_investments) (simp add: runDailyAccrual_def Let_def)

text \<open>
  The amended C7 at the example account with its active L2 slot (principal 350, daily
  rate 8/350): one run credits 8.
\<close>

theorem runDailyAccrual_credits_every_run_witness:
  "fst (runDailyAccrual ex_invested_db) = 1
   \<and> transactions (snd (runDailyAccrual ex_invested_db))
       = transactions ex_invested_db
           @ [\<lparr>t_user_id = 1, t_type = Accrual, t_amount = 8, t_investment_id = Some 1\<rparr>]
   \<and> map i_total_accruals (investments (snd (runDailyAccrual ex_invested_db))) = [8]"
proof -
  have h: "distinct (map i_id (investments ex_invested_db))"
    by (simp add: ex_invested_db_value)
  have a: "map accrualEntry (activeInvestments ex_invested_db)
             = [\<lparr>t_user_id = 1, t_type = Accrual, t_amount = 8, t_investment_id = Some 1\<rparr>]"
    by (simp add: ex_invested_db_value accrual_eval ex_defs)
  have c: "map i_total_accruals (map (creditSlot ex_invested_db) (investments ex_invested_db))
             = [8]"
    by (simp add: ex_invested_db_value creditSlot_def findPackage_def ex_defs)
  have l: "length (activeInvestments ex_invested_db) = 1"
    by (simp add: ex_invested_db_value accrual_eval ex_defs)
  from runDailyAccrual_credits_every_run [of ex_invested_db] h a c l
  show ?thesis by simp
qed

text \<open>
  C7 as stated fails at the same database: two runs of the job append two accrual
  entries of 8 for slot 1 and leave its accumulated accruals at 16.
\<close>

theorem runDailyAccrual_idempotent_counterexample:
  "transactions (snd (runDailyAccrual (snd (runDailyAccrual ex_invested_db))))
     = transactions ex_invested_db
         @ [\<lparr>t_user_id = 1, t_type = Accrual, t_amount = 8, t_investment_id = Some 1\<rparr>,
            \<lparr>t_user_id = 1, t_type = Accrual, t_amount = 8, t_investment_id = Some 1\<rparr>]
   \<and> map i_total_accruals
        (investments (snd (runDailyAccrual (snd (runDailyAccrual ex_invested_db))))) = [16]"
  by (simp add: ex_invested_db_value accrual_eval ex_defs)

section \<open>Claims about investment slots\<close>

text \<open>
  C2 (the code at the failing input). Two payment-backed investments of one account,
  each with a payment the processor confirms: both calls of \<open>POST /api/invest\<close>
  succeed, the second leaves the first slot as it is, and the account has two active
  slots.
\<close>

theorem invest_twice_two_active:
  "fst (invest ex_verifyPayment ex_db 1 1 200 ''PAY-1'') = Inr 1
   \<and> fst (invest ex_verifyPayment ex_paid_db 1 2 350 ''PAY-2'') = Inr 2
   \<and> map (\<lambda>i. (i_id i, i_user_id i, i_status i))
        (investments (snd (invest ex_verifyPayment ex_paid_db 1 2 350 ''PAY-2'')))
       = [(1, 1, Active), (2, 1, Active)]
   \<and> activeCount (snd (invest ex_verifyPayment ex_paid_db 1 2 350 ''PAY-2'')) 1 = 2"
proof -
  have a: "fst (invest ex_verifyPayment ex_db 1 1 200 ''PAY-1'') = Inr 1"
    by (simp add: pay_eval ex_defs ex_verifyPayment_def)
  have b: "fst (invest ex_verifyPayment ex_paid_db 1 2 350 ''PAY-2'') = Inr 2
   \<and> map (\<lambda>i. (i_id i, i_user_id i, i_status i))
        (investments (snd (invest ex_verifyPayment ex_paid_db 1 2 350 ''PAY-2'')))
       = [(1, 1, Active), (2, 1, Active)]
   \<and> activeCount (snd (invest ex_verifyPayment ex_paid_db 1 2 350 ''PAY-2'')) 1 = 2"
    by (simp add: ex_paid_db_value pay_eval ex_defs ex_verifyPayment_def activeCount_def)
  from a b show ?thesis by simp
qed

text \<open>
  C8 (amended). An open-or-switch call that fails one of its checks leaves the database
  as it was. A successful call answers the id of the slot it inserts, inserts that slot
  as the only slot it makes active (the rows of the active slot it read become
  terminated, every other row keeps its status), and appends exactly one investment entry
  of minus the amount linked to the new slot, so the new slot has its debit.
\<close>

theorem openOrSwitch_opens_slot_with_debit:
  "(isl (fst (investFromBalance d userId packageId amount)) \<longrightarrow>
      snd (investFromBalance d userId packageId amount) = d)
   \<and> (fst (investFromBalance d userId packageId amount) = Inr resp \<longrightarrow>
        r_investmentId resp = next_investment_id d
        \<and> investments (snd (investFromBalance d userId packageId amount))
            = map (supersede d userId) (investments d) @ [openedSlot d userId packageId amount]
        \<and> transactions (snd (investFromBalance d userId packageId amount))
            = transactions d
              @ [\<lparr>t_user_id = userId, t_type = Investment, t_amount = - amount,
                  t_investment_id = Some (next_investment_id d)\<rparr>]
        \<and> hasDebit (snd (investFromBalance d userId packageId amount)) (next_investment_id d))"
proof -
  have "r_investmentId resp = next_investment_id d
        \<and> investments (snd (investFromBalance d userId packageId amount))
            = map (supersede d userId) (investments d) @ [openedSlot d userId packageId amount]
        \<and> transactions (snd (investFromBalance d userId packageId amount))
            = transactions d
              @ [\<lparr>t_user_id = userId, t_type = Investment, t_amount = - amount,
                  t_investment_id = Some (next_investment_id d)\<rparr>]
        \<and> hasDebit (snd (investFromBalance d userId packageId amount)) (next_investment_id d)"
    if a: "fst (investFromBalance d userId packageId amount) = Inr resp"
  proof -
    obtain pl where r: "investFromBalance_reads d userId packageId amount = Inr pl"
      and resp: "resp = fst (investFromBalance_writes d pl)"
      and st: "snd (investFromBalance d userId packageId amount)
                 = snd (investFromBalance_writes d pl)"
      using investFromBalance_success [OF a] by blast
    note p = investFromBalance_reads_plan [OF r]
    have ex: "pl_existing pl
        = map_option (\<lambda>(i, p). (i_id i, p_level p)) (existingActiveInvestment d userId)"
      using p by simp
    have inv: "investments (snd (investFromBalance_writes d pl))
            = map (supersede d userId) (investments d) @ [openedSlot d userId packageId amount]"
    proof -
      have "investments (snd (investFromBalance_writes d pl))
              = map (supersede d userId) (investments d)
                @ [\<lparr>i_id = next_investment_id d, i_user_id = pl_userId pl,
                    i_package_id = pl_packageId pl, i_deposit_amount = pl_amount pl,
                    i_total_accruals = 0, i_status = Active, i_wallet = Some ''balance'',
                    i_transaction_txt = Some ''BALANCE_INVESTMENT''\<rparr>]"
        by (simp only: writes_investments supersede_plan [OF ex])
      with p show ?thesis by (simp add: openedSlot_def)
    qed
    have tr: "transactions (snd (investFromBalance_writes d pl))
            = transactions d
              @ [\<lparr>t_user_id = userId, t_type = Investment, t_amount = - amount,
                  t_investment_id = Some (next_investment_id d)\<rparr>]"
      using p by (simp add: writes_transactions)
    have deb: "hasDebit (snd (investFromBalance_writes d pl)) (next_investment_id d)"
      using p by (simp add: hasDebit_def tr)
    from resp st inv tr deb show ?thesis by (simp add: writes_response)
  qed
  then show ?thesis by (simp add: investFromBalance_failure)
qed

text \<open>
  The amended C8 at the example account: opening L2 for 350 succeeds, and a call for L2
  with an amount of 200 fails the amount check and changes nothing.
\<close>

theorem openOrSwitch_opens_slot_with_debit_witness:
  "fst (investFromBalance ex_db 1 2 350)
     = Inr \<lparr>r_investmentId = 1, r_level = ''L2'', r_previousLevel = None, r_amount = 350,
            r_newBalance = 150\<rparr>
   \<and> investments (snd (investFromBalance ex_db 1 2 350))
       = map (supersede ex_db 1) (investments ex_db) @ [openedSlot ex_db 1 2 350]
   \<and> hasDebit (snd (investFromBalance ex_db 1 2 350)) 1
   \<and> fst (investFromBalance ex_db 1 2 200) = Inl AmountMismatch
   \<and> snd (investFromBalance ex_db 1 2 200) = ex_db"
proof -
  have f: "fst (investFromBalance ex_db 1 2 200) = Inl AmountMismatch"
    by (simp add: invest_eval ex_defs)
  then have fl: "isl (fst (investFromBalance ex_db 1 2 200))" by simp
  note u = openOrSwitch_opens_slot_with_debit
             [of ex_db 1 2 200, THEN conjunct1, THEN mp, OF fl]
  have h: "fst (investFromBalance ex_db 1 2 350)
     = Inr \<lparr>r_investmentId = 1, r_level = ''L2'', r_previousLevel = None, r_amount = 350,
            r_newBalance = 150\<rparr>"
    by (simp add: invest_eval ex_defs)
  have n: "next_investment_id ex_db = 1" by (simp add: ex_db_def)
  note t = openOrSwitch_opens_slot_with_debit
             [of ex_db 1 2 350, THEN conjunct2, THEN mp, OF h]
  from t h n f u show ?thesis by simp
qed

text \<open>
  C8 as stated fails in two reachable states. After a payment-backed investment the slot
  is active and the ledger has no investment entry at all (the handler records a deposit
  entry). After a switch from L1 to L2 the terminated L1 slot still has its debit entry
  in the append-only ledger.
\<close>

theorem slot_iff_debit_counterexample:
  "fst (invest ex_verifyPayment ex_db 1 1 200 ''PAY-1'') = Inr 1
   \<and> map i_status (investments ex_paid_db) = [Active]
   \<and> filter (\<lambda>t. t_type t = Investment) (transactions ex_paid_db) = []
   \<and> \<not> activeIffDebit ex_paid_db
   \<and> map (\<lambda>i. (i_id i, i_status i, hasDebit ex_switched_db (i_id i)))
        (investments ex_switched_db)
       = [(1, Terminated, True), (2, Active, True)]
   \<and> \<not> activeIffDebit ex_switched_db"
proof -
  have a: "fst (invest ex_verifyPayment ex_db 1 1 200 ''PAY-1'') = Inr 1"
    by (simp add: pay_eval ex_defs ex_verifyPayment_def)
  have b: "map i_status (investments ex_paid_db) = [Active]
     \<and> filter (\<lambda>t. t_type t = Investment) (transactions ex_paid_db) = []
     \<and> \<not> activeIffDebit ex_paid_db"
    by (simp add: ex_paid_db_value activeIffDebit_def hasDebit_def ex_db_def)
  have c: "map (\<lambda>i. (i_id i, i_status i, hasDebit ex_switched_db (i_id i)))
        (investments ex_switched_db)
       = [(1, Terminated, True), (2, Active, True)]
   \<and> \<not> activeIffDebit ex_switched_db"
    by (simp add: ex_switched_db_value activeIffDebit_def hasDebit_def)
  from a b c show ?thesis by simp
qed

section \<open>Claims about concurrent requests\<close>

text \<open>
  C9 (amended). Two open-or-switch calls of one account that run one after the other
  leave the account with at most one active slot, when it had at most one before and its
  active slots name tiers of the catalogue: the second call terminates the slot the first
  one opened, or fails. The handler does not serialize its reads and writes per account:
  in the schedule where the reads of both calls come before the writes of either, two
  calls whose checks pass on the database they read both succeed and leave the account
  with at least two active slots.
\<close>

theorem openOrSwitch_serial_single_active:
  "(slotsHaveTier d userId \<and> activeCount d userId \<le> 1 \<longrightarrow>
      activeCount
        (snd (snd (investFromBalance_serial d userId packageA amountA packageB amountB)))
        userId \<le> 1)
   \<and> (idsFresh d
        \<and> \<not> isl (investFromBalance_reads d userId packageA amountA)
        \<and> \<not> isl (investFromBalance_reads d userId packageB amountB) \<longrightarrow>
        \<not> isl (fst (investFromBalance_interleaved d userId packageA amountA packageB amountB))
        \<and> \<not> isl (fst (snd (investFromBalance_interleaved d userId packageA amountA
                                packageB amountB)))
        \<and> 2 \<le> activeCount
                  (snd (snd (investFromBalance_interleaved d userId packageA amountA
                               packageB amountB))) userId)"
proof (intro conjI impI)
  assume "slotsHaveTier d userId \<and> activeCount d userId \<le> 1"
  then show "activeCount
        (snd (snd (investFromBalance_serial d userId packageA amountA packageB amountB)))
        userId \<le> 1"
    using serial_single_active by blast
next
  assume a: "idsFresh d
        \<and> \<not> isl (investFromBalance_reads d userId packageA amountA)
        \<and> \<not> isl (investFromBalance_reads d userId packageB amountB)"
  then obtain plA plB where "investFromBalance_reads d userId packageA amountA = Inr plA"
    and "investFromBalance_reads d userId packageB amountB = Inr plB"
    by (cases "investFromBalance_reads d userId packageA amountA";
        cases "investFromBalance_reads d userId packageB amountB") auto
  with a interleaved_both_succeed [of d userId packageA amountA plA packageB amountB plB]
  show "\<not> isl (fst (investFromBalance_interleaved d userId packageA amountA packageB amountB))"
    and "\<not> isl (fst (snd (investFromBalance_interleaved d userId packageA amountA
                                packageB amountB)))"
    and "2 \<le> activeCount
                  (snd (snd (investFromBalance_interleaved d userId packageA amountA
                               packageB amountB))) userId"
    by blast+
qed

text \<open>
  The amended C9 at the scenario account (deposit of 600), with calls for L1 (200) and
  L2 (350): one active slot after the serial run, two after the interleaved one.
\<close>

theorem openOrSwitch_serial_single_active_witness:
  "activeCount (snd (snd (investFromBalance_serial ex_scenario_db 1 1 200 2 350))) 1 \<le> 1
   \<and> 2 \<le> activeCount (snd (snd (investFromBalance_interleaved ex_scenario_db 1 1 200 2 350))) 1"
proof -
  have h1: "slotsHaveTier ex_scenario_db 1 \<and> activeCount ex_scenario_db 1 \<le> 1"
    by (simp add: slotsHaveTier_def activeCount_def ex_scenario_db_def ex_db_def)
  have h2: "idsFresh ex_scenario_db
        \<and> \<not> isl (investFromBalance_reads ex_scenario_db 1 1 200)
        \<and> \<not> isl (investFromBalance_reads ex_scenario_db 1 2 350)"
    by (simp add: idsFresh_def ex_scenario_db_def invest_eval ex_defs)
  note t = openOrSwitch_serial_single_active [of ex_scenario_db 1 1 200 2 350]
  from t [THEN conjunct1, THEN mp, OF h1] t [THEN conjunct2, THEN mp, OF h2]
  show ?thesis by blast
qed

text \<open>
  C9 as stated fails at the example account (balance 500) with concurrent calls for L1
  (200) and L2 (350): both pass the balance check on the balance of 500 and both
  succeed, the account has two active slots and a projected balance of -50. Run one
  after the other, the second call fails with insufficient balance.
\<close>

theorem concurrent_openOrSwitch_counterexample:
  "map_sum id r_investmentId (fst (investFromBalance_interleaved ex_db 1 1 200 2 350)) = Inr 1
   \<and> map_sum id r_investmentId (fst (snd (investFromBalance_interleaved ex_db 1 1 200 2 350)))
       = Inr 2
   \<and> map (\<lambda>i. (i_id i, i_user_id i, i_status i))
        (investments (snd (snd (investFromBalance_interleaved ex_db 1 1 200 2 350))))
       = [(1, 1, Active), (2, 1, Active)]
   \<and> activeCount (snd (snd (investFromBalance_interleaved ex_db 1 1 200 2 350))) 1 = 2
   \<and> invest_availableBalance
        (userTransactions (snd (snd (investFromBalance_interleaved ex_db 1 1 200 2 350))) 1)
       = - 50
   \<and> fst (snd (investFromBalance_serial ex_db 1 1 200 2 350)) = Inl InsufficientBalance"
  by (simp add: interleave_eval ex_defs activeCount_def)

end
